theory Spec2Isabelle
  imports Main
begin

section \<open>sistem.h: channel states and the system aggregate\<close>

text \<open>
  The enumeration \<open>ChannelState\<close>, in declaration order. A C++ enumeration without
  explicit values numbers its enumerators from 0, which \<open>ChannelState_of_value\<close> records.
\<close>

datatype ChannelState =
  CHANNEL_IDLE | LED_ON | DELAY_COUNTING | ADC_READING_PHASE | CYCLE_COMPLETE

definition ChannelState_of_value :: "nat \<Rightarrow> ChannelState" where
  "ChannelState_of_value n =
     [CHANNEL_IDLE, LED_ON, DELAY_COUNTING, ADC_READING_PHASE, CYCLE_COMPLETE] ! n"

record prc =
  led :: bool
  delay :: bool
  adc_read :: bool

text \<open>
  \<open>struct sistem\<close>. The class \<open>ads1115\<close> is declared in \<open>ads.h\<close>, outside the
  two files modelled here, so the type of \<open>myAds\<close> is a parameter. The arrays \<open>channelState[4]\<close> and
  \<open>process[4]\<close> are lists of length 4.
\<close>

record 'ads sistem =
  SisteminAdi :: string
  versiyon :: string
  myAds :: 'ads
  channelState :: "ChannelState list"
  process :: "prc list"
  process_itr :: int
  process_pos :: int
  state :: bool

text \<open>
  \<open>extern sistem mysistem\<close> declares an object of static storage duration: its storage
  is zero-initialised before its constructor runs. Zeroed storage holds the enumerator of
  value 0 in every \<open>channelState\<close> slot, \<open>false\<close> in every \<open>bool\<close> and 0 in every \<open>int\<close>.
\<close>

definition sistem_static_storage :: "'ads \<Rightarrow> 'ads sistem" where
  "sistem_static_storage raw_ads =
     \<lparr> SisteminAdi = [], versiyon = [], myAds = raw_ads,
       channelState = replicate 4 (ChannelState_of_value 0),
       process = replicate 4 \<lparr> led = False, delay = False, adc_read = False \<rparr>,
       process_itr = 0, process_pos = 0, state = False \<rparr>"

text \<open>
  The implicit default constructor of \<open>sistem\<close>, run on given storage: the two
  \<open>String\<close> members become empty, \<open>myAds\<close> is constructed (its constructed value is a
  parameter), \<open>process_itr\<close> and \<open>process_pos\<close> take their default member initialiser 0.
  \<open>channelState\<close>, \<open>process\<close> and \<open>state\<close> have no initialiser and keep what the storage
  held.
\<close>

definition sistem_ctor :: "'ads \<Rightarrow> 'ads sistem \<Rightarrow> 'ads sistem" where
  "sistem_ctor new_ads storage =
     storage \<lparr> SisteminAdi := [], versiyon := [], myAds := new_ads,
               process_itr := 0, process_pos := 0 \<rparr>"

section \<open>The digital output lines\<close>

datatype level = LOW | HIGH

datatype pin_mode = INPUT | OUTPUT

text \<open>
  \<open>ledClass\<close> is declared in \<open>ledClass.h\<close>, outside the two files modelled here; the
  only member the controller touches is \<open>counter\<close>.
\<close>

record ledClass =
  counter :: int

text \<open>
  The state of the program: the global \<open>mysistem\<close>, the global \<open>dongu_led[4]\<close>, the
  static members \<open>toggleFlag[5]\<close> and \<open>instance\<close> (here: whether it is non-null), the
  member array \<open>leds\<close>, and the output lines with their mode and level. \<open>writes\<close>
  records every \<open>digitalWrite\<close> in order, so that "no write" can be told from "a write
  of the level the line already has".
\<close>

record 'ads mcu =
  mysistem :: "'ads sistem"
  dongu_led :: "bool list"
  toggleFlag :: "bool list"
  instance_registered :: bool
  leds :: "ledClass list"
  mode_of :: "int \<Rightarrow> pin_mode"
  level_of :: "int \<Rightarrow> level"
  writes :: "(int \<times> level) list"

text \<open>
  The two primitives of the digital output driver that the controller calls:
  \<open>pinMode\<close> sets the mode of a line and \<open>digitalWrite\<close> sets its level.
\<close>

definition pinMode :: "int \<Rightarrow> pin_mode \<Rightarrow> 'ads mcu \<Rightarrow> 'ads mcu" where
  "pinMode pin m s = s \<lparr> mode_of := (mode_of s)(pin := m) \<rparr>"

definition digitalWrite :: "int \<Rightarrow> level \<Rightarrow> 'ads mcu \<Rightarrow> 'ads mcu" where
  "digitalWrite pin v s =
     s \<lparr> level_of := (level_of s)(pin := v), writes := writes s @ [(pin, v)] \<rparr>"

text \<open>The declared array sizes: what every state of the program satisfies.\<close>

definition wf_mcu :: "'ads mcu \<Rightarrow> bool" where
  "wf_mcu s \<longleftrightarrow>
     length (channelState (mysistem s)) = 4 \<and> length (process (mysistem s)) = 4 \<and>
     length (dongu_led s) = 4 \<and> length (toggleFlag s) = 5 \<and> 4 < length (leds s)"

section \<open>ledController.cpp\<close>

definition pinNos :: "int list" where
  "pinNos = [4, 5, 6, 7, 22]"

text \<open>The static initialiser of \<open>toggleFlag\<close>.\<close>

definition toggleFlag_init :: "bool list" where
  "toggleFlag_init = [False, False, False, False, False]"

definition ledController_ctor :: "'ads mcu \<Rightarrow> 'ads mcu" where
  "ledController_ctor s = s \<lparr> instance_registered := True \<rparr>"

text \<open>\<open>ledController::begin\<close>: the loop \<open>for (int i = 0; i < 5; i++)\<close>.\<close>

function begin_loop :: "int \<Rightarrow> 'ads mcu \<Rightarrow> 'ads mcu" where
  "begin_loop i s =
     (if i < 5
      then begin_loop (i + 1)
             (digitalWrite (pinNos ! nat i) LOW (pinMode (pinNos ! nat i) OUTPUT s))
      else s)"
  by pat_completeness auto
termination
  by (relation "measure (\<lambda>(i, s). nat (5 - i))") auto

definition ledController_begin :: "'ads mcu \<Rightarrow> 'ads mcu" where
  "ledController_begin s = begin_loop 0 s"

text \<open>
  \<open>ledController::update\<close>. An index outside the arrays \<open>toggleFlag[5]\<close> and
  \<open>pinNos[5]\<close> is undefined behaviour in the source: the model returns \<open>None\<close> there.
\<close>

definition ledController_update :: "int \<Rightarrow> 'ads mcu \<Rightarrow> 'ads mcu option" where
  "ledController_update i s =
     (if 0 \<le> i \<and> i < 5
      then Some (if toggleFlag s ! nat i
                 then digitalWrite (pinNos ! nat i) HIGH s
                 else digitalWrite (pinNos ! nat i) LOW s)
      else None)"

definition ledController_adsBaglanmadiLedBildir :: "'ads mcu \<Rightarrow> 'ads mcu" where
  "ledController_adsBaglanmadiLedBildir s =
     (if counter (leds s ! 4) = 4
      then (let s1 = digitalWrite 22 LOW s
            in s1 \<lparr> leds := (leds s1)[4 := (leds s1 ! 4) \<lparr> counter := 0 \<rparr>] \<rparr>)
      else s)"

text \<open>\<open>update(i)\<close> called \<open>n\<close> times in a row.\<close>

fun update_times :: "nat \<Rightarrow> int \<Rightarrow> 'ads mcu \<Rightarrow> 'ads mcu option" where
  "update_times 0 i s = Some s"
| "update_times (Suc n) i s =
     (case ledController_update i s of
        None \<Rightarrow> None
      | Some s' \<Rightarrow> update_times n i s')"

text \<open>
  The monitored counter \<open>leds[4].counter\<close> is written by code outside
  \<open>ledController.cpp\<close>. A history of the monitor is a list of events: a call of
  \<open>adsBaglanmadiLedBildir\<close>, or a write of any value to the counter from elsewhere.
\<close>

datatype monitor_event = Call_adsBaglanmadiLedBildir | Counter_written int

fun monitor_step :: "monitor_event \<Rightarrow> 'ads mcu \<Rightarrow> 'ads mcu" where
  "monitor_step Call_adsBaglanmadiLedBildir s = ledController_adsBaglanmadiLedBildir s"
| "monitor_step (Counter_written v) s =
     s \<lparr> leds := (leds s)[4 := (leds s ! 4) \<lparr> counter := v \<rparr>] \<rparr>"

fun monitor_run :: "monitor_event list \<Rightarrow> 'ads mcu \<Rightarrow> 'ads mcu" where
  "monitor_run [] s = s"
| "monitor_run (e # es) s = monitor_run es (monitor_step e s)"

text \<open>The counter is below or above 4 in every state in which an event of the history starts.\<close>

fun counter_not_at_4 :: "monitor_event list \<Rightarrow> 'ads mcu \<Rightarrow> bool" where
  "counter_not_at_4 [] s = True"
| "counter_not_at_4 (e # es) s =
     (counter (leds s ! 4) \<noteq> 4 \<and> counter_not_at_4 es (monitor_step e s))"

section \<open>Startup\<close>

text \<open>
  The state when \<open>setup()\<close> starts: \<open>mysistem\<close> constructed on its zeroed static storage,
  \<open>toggleFlag\<close> at its static initialiser, \<open>instance\<close> null, nothing written yet. What the
  two files modelled here do not fix is a parameter: the \<open>ads1115\<close> object, \<open>dongu_led\<close>, the
  \<open>leds\<close> array, and the mode and level of the lines after reset.
\<close>

definition startup ::
  "'ads \<Rightarrow> 'ads \<Rightarrow> bool list \<Rightarrow> ledClass list \<Rightarrow> (int \<Rightarrow> pin_mode) \<Rightarrow> (int \<Rightarrow> level) \<Rightarrow> 'ads mcu" where
  "startup raw_ads new_ads dongu ls modes levels =
     \<lparr> mysistem = sistem_ctor new_ads (sistem_static_storage raw_ads),
       dongu_led = dongu, toggleFlag = toggleFlag_init, instance_registered = False,
       leds = ls, mode_of = modes, level_of = levels, writes = [] \<rparr>"

section \<open>The channel sequencer and the orchestrator\<close>

text \<open>
  Modelled from the spec: the per-channel state machine and the orchestrator's \<open>tick()\<close>
  (spec sections 4.1 and 4.2), whose code is not in \<open>ledController.cpp\<close> or \<open>sistem.h\<close>. The model
  covers what the spec says about \<open>channelState\<close>, the LED flags \<open>toggleFlag[0..3]\<close> and
  the cursor (\<open>process_pos\<close>, \<open>process_itr\<close>):
  \<^item> \<open>tick()\<close> advances exactly one channel, the one at \<open>process_pos\<close>;
  \<^item> \<open>CHANNEL_IDLE \<rightarrow> LED_ON\<close> when the channel is the selected one, setting its flag;
  \<^item> \<open>LED_ON \<rightarrow> DELAY_COUNTING\<close> when \<open>time_open\<close> has elapsed, clearing its flag;
  \<^item> \<open>DELAY_COUNTING \<rightarrow> ADC_READING_PHASE\<close> when the settle delay has elapsed;
  \<^item> \<open>ADC_READING_PHASE \<rightarrow> CYCLE_COMPLETE\<close> when the configured samples are collected;
  \<^item> \<open>CYCLE_COMPLETE \<rightarrow> CHANNEL_IDLE\<close> on acknowledgement, which increments
    \<open>process_itr\<close> and advances \<open>process_pos\<close> to \<open>(process_pos + 1) mod 4\<close>; the newly
    selected channel is reset to \<open>LED_ON\<close> at once when \<open>skip_idle\<close> holds, and is left
    to pass through \<open>CHANNEL_IDLE\<close> otherwise (the spec leaves this policy to be fixed).
  The input \<open>phase_done\<close> stands for the elapsed-time or sample-count condition of the
  current phase, which the main loop polls.
\<close>

definition set_channel :: "nat \<Rightarrow> ChannelState \<Rightarrow> 'ads mcu \<Rightarrow> 'ads mcu" where
  "set_channel k c s =
     s \<lparr> mysistem := (mysistem s)
           \<lparr> channelState := (channelState (mysistem s))[k := c] \<rparr> \<rparr>"

definition set_ledFlag :: "nat \<Rightarrow> bool \<Rightarrow> 'ads mcu \<Rightarrow> 'ads mcu" where
  "set_ledFlag k b s = s \<lparr> toggleFlag := (toggleFlag s)[k := b] \<rparr>"

definition acknowledge :: "bool \<Rightarrow> nat \<Rightarrow> 'ads mcu \<Rightarrow> 'ads mcu" where
  "acknowledge skip_idle k s =
     (let s1 = set_channel k CHANNEL_IDLE s;
          next_pos = (int k + 1) mod 4;
          s2 = s1 \<lparr> mysistem := (mysistem s1)
                      \<lparr> process_itr := process_itr (mysistem s1) + 1,
                        process_pos := next_pos \<rparr> \<rparr>
      in if skip_idle
         then set_ledFlag (nat next_pos) True (set_channel (nat next_pos) LED_ON s2)
         else s2)"

definition tick :: "bool \<Rightarrow> bool \<Rightarrow> 'ads mcu \<Rightarrow> 'ads mcu" where
  "tick skip_idle phase_done s =
     (let p = process_pos (mysistem s) in
      if p < 0 \<or> 4 \<le> p then s
      else
        (case channelState (mysistem s) ! nat p of
           CHANNEL_IDLE \<Rightarrow> set_ledFlag (nat p) True (set_channel (nat p) LED_ON s)
         | LED_ON \<Rightarrow>
             if phase_done
             then set_ledFlag (nat p) False (set_channel (nat p) DELAY_COUNTING s)
             else s
         | DELAY_COUNTING \<Rightarrow>
             if phase_done then set_channel (nat p) ADC_READING_PHASE s else s
         | ADC_READING_PHASE \<Rightarrow>
             if phase_done then set_channel (nat p) CYCLE_COMPLETE s else s
         | CYCLE_COMPLETE \<Rightarrow> acknowledge skip_idle (nat p) s))"

text \<open>
  The operations of the system: those of \<open>ledController.cpp\<close> and the orchestrator's
  tick. A run applies a list of them in order and fails where one of them is undefined.
\<close>

datatype operation =
  Op_ctor | Op_begin | Op_update int | Op_adsBaglanmadiLedBildir | Op_tick bool

fun apply_operation :: "bool \<Rightarrow> operation \<Rightarrow> 'ads mcu \<Rightarrow> 'ads mcu option" where
  "apply_operation skip_idle Op_ctor s = Some (ledController_ctor s)"
| "apply_operation skip_idle Op_begin s = Some (ledController_begin s)"
| "apply_operation skip_idle (Op_update i) s = ledController_update i s"
| "apply_operation skip_idle Op_adsBaglanmadiLedBildir s =
     Some (ledController_adsBaglanmadiLedBildir s)"
| "apply_operation skip_idle (Op_tick phase_done) s = Some (tick skip_idle phase_done s)"

fun run :: "bool \<Rightarrow> operation list \<Rightarrow> 'ads mcu \<Rightarrow> 'ads mcu option" where
  "run skip_idle [] s = Some s"
| "run skip_idle (x # xs) s =
     (case apply_operation skip_idle x s of
        None \<Rightarrow> None
      | Some s' \<Rightarrow> run skip_idle xs s')"

definition adc_readers :: "'ads mcu \<Rightarrow> nat" where
  "adc_readers s =
     length (filter (\<lambda>c. c = ADC_READING_PHASE) (channelState (mysistem s)))"

section \<open>A concrete program state\<close>

text \<open>
  A board after reset: every line an input at low level, all counters 0, the
  \<open>ads1115\<close> object left abstract as the unit value.
\<close>

definition board :: "unit mcu" where
  "board = startup () () [False, False, False, False]
             (replicate 5 \<lparr> counter = 0 \<rparr>) (\<lambda>_. INPUT) (\<lambda>_. LOW)"

text \<open>The same board with the flag of LED 2 raised.\<close>

definition board_led2 :: "unit mcu" where
  "board_led2 = board \<lparr> toggleFlag := [False, False, True, False, False] \<rparr>"

text \<open>The same board with the monitored counter at the threshold, status line high.\<close>

definition board_faulty :: "unit mcu" where
  "board_faulty =
     board \<lparr> leds := replicate 4 \<lparr> counter = 0 \<rparr> @ [\<lparr> counter = 4 \<rparr>],
             level_of := (\<lambda>_. LOW)(22 := HIGH) \<rparr>"

text \<open>The same board with the monitored counter past the threshold.\<close>

definition board_overshoot :: "unit mcu" where
  "board_overshoot = board \<lparr> leds := replicate 4 \<lparr> counter = 0 \<rparr> @ [\<lparr> counter = 5 \<rparr>] \<rparr>"


text \<open>
  A history after the fault was signalled: three more calls, with the counter set to 1, 2
  and 3 in between.
\<close>

definition example_history :: "monitor_event list" where
  "example_history =
     [Call_adsBaglanmadiLedBildir, Counter_written 1, Call_adsBaglanmadiLedBildir,
      Counter_written 2, Counter_written 3, Call_adsBaglanmadiLedBildir]"

text \<open>
  Two runs from the board: one that brings channel 0 into its ADC phase, with the lines
  initialised and reconciled on the way, and one that stops while LED 0 is on.
\<close>

definition example_run_adc :: "operation list" where
  "example_run_adc = [Op_begin, Op_tick False, Op_update 0, Op_tick True, Op_tick True]"

definition example_run_led :: "operation list" where
  "example_run_led = [Op_begin, Op_tick False, Op_update 0]"

section \<open>The invariant of the sequencer\<close>

text \<open>
  What holds in every state the system reaches: the arrays have their declared sizes, the
  cursor is in range, every channel the cursor does not point at is idle, and the flag of
  each channel agrees with its state.
\<close>

definition seq_inv :: "'ads mcu \<Rightarrow> bool" where
  "seq_inv s \<longleftrightarrow>
     length (channelState (mysistem s)) = 4 \<and> length (toggleFlag s) = 5 \<and>
     0 \<le> process_pos (mysistem s) \<and> process_pos (mysistem s) < 4 \<and>
     (\<forall>j<4. j \<noteq> nat (process_pos (mysistem s)) \<longrightarrow>
              channelState (mysistem s) ! j = CHANNEL_IDLE) \<and>
     (\<forall>j<4. toggleFlag s ! j = (channelState (mysistem s) ! j = LED_ON))"

section \<open>Basic facts\<close>

declare begin_loop.simps [simp del]

lemma begin_unfolded:
  "ledController_begin s =
     digitalWrite 22 LOW (pinMode 22 OUTPUT
       (digitalWrite 7 LOW (pinMode 7 OUTPUT
         (digitalWrite 6 LOW (pinMode 6 OUTPUT
           (digitalWrite 5 LOW (pinMode 5 OUTPUT
             (digitalWrite 4 LOW (pinMode 4 OUTPUT s)))))))))"
proof -
  have step: "\<And>i t. i < 5 \<Longrightarrow>
      begin_loop i t =
        begin_loop (i + 1)
          (digitalWrite (pinNos ! nat i) LOW (pinMode (pinNos ! nat i) OUTPUT t))"
    by (subst begin_loop.simps) simp
  have stop: "\<And>t::'a mcu. begin_loop 5 t = t"
    by (subst begin_loop.simps) simp
  show ?thesis
    unfolding ledController_begin_def
    by (simp add: step stop pinNos_def)
qed

lemma begin_levels:
  "level_of (ledController_begin s) =
     (level_of s)(4 := LOW, 5 := LOW, 6 := LOW, 7 := LOW, 22 := LOW)"
  by (simp add: begin_unfolded digitalWrite_def pinMode_def)

lemma begin_modes:
  "mode_of (ledController_begin s) =
     (mode_of s)(4 := OUTPUT, 5 := OUTPUT, 6 := OUTPUT, 7 := OUTPUT, 22 := OUTPUT)"
  by (simp add: begin_unfolded digitalWrite_def pinMode_def)

lemma begin_toggleFlag: "toggleFlag (ledController_begin s) = toggleFlag s"
  by (simp add: begin_unfolded digitalWrite_def pinMode_def)

lemma begin_pins_low: "p \<in> set pinNos \<Longrightarrow> level_of (ledController_begin s) p = LOW"
  by (auto simp: begin_levels pinNos_def)

lemma begin_pins_output: "p \<in> set pinNos \<Longrightarrow> mode_of (ledController_begin s) p = OUTPUT"
  by (auto simp: begin_modes pinNos_def)

lemma distinct_pinNos: "distinct pinNos"
  by (simp add: pinNos_def)

lemma nth_pinNos_mem: "0 \<le> i \<Longrightarrow> i < 5 \<Longrightarrow> pinNos ! nat i \<in> set pinNos"
  by (rule nth_mem) (simp add: pinNos_def)

lemma pinNos_inj:
  assumes "0 \<le> i" "i < 5" "0 \<le> j" "j < 5" "i \<noteq> j"
  shows "pinNos ! nat i \<noteq> pinNos ! nat j"
proof -
  have "nat i < length pinNos" "nat j < length pinNos" "nat i \<noteq> nat j"
    using assms by (simp_all add: pinNos_def)
  then show ?thesis
    using distinct_pinNos by (simp add: nth_eq_iff_index_eq)
qed

lemma toggleFlag_init_nth: "0 \<le> i \<Longrightarrow> i < 5 \<Longrightarrow> \<not> toggleFlag_init ! nat i"
proof -
  assume "0 \<le> i" "i < 5"
  then have "nat i < 5" by simp
  then have "nat i \<in> {0, 1, 2, 3, 4}" by auto
  then show ?thesis by (auto simp: toggleFlag_init_def)
qed

lemma update_Some:
  "0 \<le> i \<Longrightarrow> i < 5 \<Longrightarrow>
   ledController_update i s =
     Some (digitalWrite (pinNos ! nat i) (if toggleFlag s ! nat i then HIGH else LOW) s)"
  by (simp add: ledController_update_def)

subsection \<open>The concrete boards\<close>

lemma wf_board: "wf_mcu board"
  by (simp add: board_def startup_def wf_mcu_def sistem_ctor_def sistem_static_storage_def
      toggleFlag_init_def)

lemma wf_board_faulty: "wf_mcu board_faulty"
  using wf_board by (simp add: board_faulty_def wf_mcu_def)

lemma wf_board_led2: "wf_mcu board_led2"
  using wf_board by (simp add: board_led2_def wf_mcu_def)

lemma counter_board_faulty: "counter (leds board_faulty ! 4) = 4"
  by (simp add: board_faulty_def nth_append)

lemma counter_board_overshoot: "counter (leds board_overshoot ! 4) = 5"
  by (simp add: board_overshoot_def nth_append)

lemma toggleFlag_board: "toggleFlag board = toggleFlag_init"
  by (simp add: board_def startup_def)

lemma update_board_led2: "ledController_update 2 board_led2 = Some (digitalWrite 6 HIGH board_led2)"
  by (simp add: ledController_update_def board_led2_def pinNos_def)

section \<open>The LED toggle register: \<open>update\<close>\<close>

text \<open>
  Claim C2. For every LED index \<open>i\<close> in \<open>[0,4]\<close>, \<open>update(i)\<close> returns, leaves the flags as
  they were, and afterwards the level of line \<open>pinNos[i]\<close> is \<open>HIGH\<close> if \<open>toggleFlag[i]\<close>
  is true and \<open>LOW\<close> if it is false.
\<close>

theorem update_drives_pin:
  assumes "wf_mcu s" and "0 \<le> i" and "i < 5"
  shows "\<exists>s'. ledController_update i s = Some s' \<and> toggleFlag s' = toggleFlag s \<and>
           level_of s' (pinNos ! nat i) = (if toggleFlag s' ! nat i then HIGH else LOW)"
  using assms by (simp add: ledController_update_def digitalWrite_def)

theorem update_drives_pin_witness:
  "wf_mcu board_led2 \<and> (0::int) \<le> 2 \<and> (2::int) < 5 \<and> level_of board_led2 6 = LOW \<and>
   (\<exists>s'. ledController_update 2 board_led2 = Some s' \<and> level_of s' 6 = HIGH)"
proof -
  obtain s' where s': "ledController_update 2 board_led2 = Some s'"
      "toggleFlag s' = toggleFlag board_led2"
      "level_of s' (pinNos ! nat 2) = (if toggleFlag s' ! nat 2 then HIGH else LOW)"
    using update_drives_pin [OF wf_board_led2, of 2] by auto
  have "toggleFlag board_led2 ! nat 2"
    by (simp add: board_led2_def)
  then have "level_of s' 6 = HIGH"
    using s'(2,3) by (simp add: pinNos_def)
  moreover have "level_of board_led2 6 = LOW"
    by (simp add: board_led2_def board_def startup_def)
  ultimately show ?thesis
    using wf_board_led2 s'(1) by simp
qed

text \<open>
  Claim C8. For every LED index \<open>i\<close> in \<open>[0,4]\<close>, \<open>update(i)\<close> changes nothing but line
  \<open>pinNos[i]\<close>: the flags, the modes, \<open>leds\<close>, \<open>mysistem\<close>, \<open>dongu_led\<close> and \<open>instance\<close>
  are as before, every other line keeps its level (in particular the four other LED
  lines, the pin numbers 4, 5, 6, 7, 22 being pairwise distinct), and the only write is
  the one to \<open>pinNos[i]\<close>.
\<close>

theorem update_frame:
  assumes "wf_mcu s" and "0 \<le> i" and "i < 5" and "ledController_update i s = Some s'"
  shows "toggleFlag s' = toggleFlag s \<and> mode_of s' = mode_of s \<and> leds s' = leds s \<and>
         mysistem s' = mysistem s \<and> dongu_led s' = dongu_led s \<and>
         instance_registered s' = instance_registered s \<and>
         (\<forall>p. p \<noteq> pinNos ! nat i \<longrightarrow> level_of s' p = level_of s p) \<and>
         (\<forall>j. 0 \<le> j \<and> j < 5 \<and> j \<noteq> i \<longrightarrow>
              level_of s' (pinNos ! nat j) = level_of s (pinNos ! nat j)) \<and>
         (\<exists>v. writes s' = writes s @ [(pinNos ! nat i, v)]) \<and>
         s' = s \<lparr> level_of := (level_of s)(pinNos ! nat i := level_of s' (pinNos ! nat i)),
                  writes := writes s' \<rparr> \<and>
         pinNos = [4, 5, 6, 7, 22] \<and> distinct pinNos"
proof -
  obtain v where s': "s' = digitalWrite (pinNos ! nat i) v s"
    using assms(4) by (auto simp: ledController_update_def split: if_splits)
  have other: "\<forall>j. 0 \<le> j \<and> j < 5 \<and> j \<noteq> i \<longrightarrow>
              level_of s' (pinNos ! nat j) = level_of s (pinNos ! nat j)"
    using pinNos_inj [OF _ _ assms(2,3)] by (simp add: s' digitalWrite_def)
  have whole: "s' = s \<lparr> level_of := (level_of s)(pinNos ! nat i := level_of s' (pinNos ! nat i)),
                        writes := writes s' \<rparr>"
    by (simp add: s' digitalWrite_def)
  have rest: "toggleFlag s' = toggleFlag s \<and> mode_of s' = mode_of s \<and> leds s' = leds s \<and>
         mysistem s' = mysistem s \<and> dongu_led s' = dongu_led s \<and>
         instance_registered s' = instance_registered s \<and>
         (\<forall>p. p \<noteq> pinNos ! nat i \<longrightarrow> level_of s' p = level_of s p) \<and>
         (\<exists>v. writes s' = writes s @ [(pinNos ! nat i, v)])"
    by (simp add: s' digitalWrite_def)
  have pins: "pinNos = [4, 5, 6, 7, 22]"
    by (simp add: pinNos_def)
  show ?thesis
    using other whole rest pins distinct_pinNos by blast
qed

theorem update_frame_witness:
  "wf_mcu board_led2 \<and> (0::int) \<le> 2 \<and> (2::int) < 5 \<and>
   ledController_update 2 board_led2 = Some (digitalWrite 6 HIGH board_led2) \<and>
   toggleFlag (digitalWrite 6 HIGH board_led2) = toggleFlag board_led2 \<and>
   mysistem (digitalWrite 6 HIGH board_led2) = mysistem board_led2 \<and>
   (7::int) \<noteq> pinNos ! nat 2 \<and>
   level_of (digitalWrite 6 HIGH board_led2) 7 = level_of board_led2 7"
proof -
  have "(7::int) \<noteq> pinNos ! nat 2"
    by (simp add: pinNos_def)
  then show ?thesis
    using update_frame [OF wf_board_led2 _ _ update_board_led2] wf_board_led2 update_board_led2
    by simp
qed

text \<open>
  \<open>n\<close> calls of \<open>update(i)\<close> in a row all return; they write the same level to the same
  line \<open>n\<close> times, and from the first call on the levels are those after one call.
\<close>

lemma update_times_Some:
  assumes "0 \<le> i" and "i < 5"
  shows "\<exists>t. update_times n i s = Some t \<and> toggleFlag t = toggleFlag s \<and>
             writes t = writes s @
               replicate n (pinNos ! nat i, if toggleFlag s ! nat i then HIGH else LOW) \<and>
             (0 < n \<longrightarrow> level_of t =
               (level_of s)(pinNos ! nat i := (if toggleFlag s ! nat i then HIGH else LOW)))"
proof (induction n arbitrary: s)
  case 0
  show ?case by simp
next
  case (Suc n)
  let ?v = "if toggleFlag s ! nat i then HIGH else LOW"
  let ?s1 = "digitalWrite (pinNos ! nat i) ?v s"
  have flag1: "toggleFlag ?s1 = toggleFlag s"
    by (simp add: digitalWrite_def)
  obtain t where t: "update_times n i ?s1 = Some t" "toggleFlag t = toggleFlag ?s1"
      "writes t = writes ?s1 @
         replicate n (pinNos ! nat i, if toggleFlag ?s1 ! nat i then HIGH else LOW)"
      "0 < n \<longrightarrow> level_of t =
         (level_of ?s1)(pinNos ! nat i := (if toggleFlag ?s1 ! nat i then HIGH else LOW))"
    using Suc.IH [of ?s1] by blast
  have run: "update_times (Suc n) i s = Some t"
    using t(1) by (simp add: update_Some [OF assms])
  have lv: "level_of t = (level_of s)(pinNos ! nat i := ?v)"
  proof (cases n)
    case 0
    then have "t = ?s1" using t(1) by simp
    then show ?thesis by (simp add: digitalWrite_def)
  next
    case (Suc m)
    then show ?thesis using t(4) flag1 by (simp add: digitalWrite_def)
  qed
  have wr: "writes t = writes s @ replicate (Suc n) (pinNos ! nat i, ?v)"
    using t(3) flag1 by (simp add: digitalWrite_def replicate_append_same)
  have "toggleFlag t = toggleFlag s"
    using t(2) flag1 by simp
  then show ?case
    using run lv wr by blast
qed

text \<open>
  Claim C6. For every LED index \<open>i\<close> in \<open>[0,4]\<close>, calling \<open>update(i)\<close> again and again
  with the flag unchanged is idempotent on the lines: after \<open>n + 1\<close> calls every line has
  the level it had after the first call, so only the first call can change a level. The
  \<open>n\<close> further calls each write to \<open>pinNos[i]\<close> the level it already has.
\<close>

theorem update_idempotent:
  assumes "wf_mcu s" and "0 \<le> i" and "i < 5"
  shows "\<exists>s1 sn. ledController_update i s = Some s1 \<and>
           update_times (Suc n) i s = Some sn \<and>
           toggleFlag sn = toggleFlag s \<and>
           level_of sn = level_of s1 \<and>
           writes sn = writes s1 @ replicate n (pinNos ! nat i, level_of s1 (pinNos ! nat i))"
proof -
  let ?v = "if toggleFlag s ! nat i then HIGH else LOW"
  let ?s1 = "digitalWrite (pinNos ! nat i) ?v s"
  obtain sn where sn: "update_times (Suc n) i s = Some sn" "toggleFlag sn = toggleFlag s"
      "writes sn = writes s @ replicate (Suc n) (pinNos ! nat i, ?v)"
      "level_of sn = (level_of s)(pinNos ! nat i := ?v)"
    using update_times_Some [OF assms(2,3), of "Suc n" s] by auto
  have "writes sn = writes ?s1 @ replicate n (pinNos ! nat i, level_of ?s1 (pinNos ! nat i))"
    using sn(3) by (simp add: digitalWrite_def replicate_append_same)
  moreover have "level_of sn = level_of ?s1"
    using sn(4) by (simp add: digitalWrite_def)
  ultimately show ?thesis
    using sn(1,2) update_Some [OF assms(2,3), of s] by simp
qed

theorem update_idempotent_witness:
  "wf_mcu board_led2 \<and> (0::int) \<le> 2 \<and> (2::int) < 5 \<and>
   (\<exists>s1 sn. ledController_update 2 board_led2 = Some s1 \<and>
      update_times 3 2 board_led2 = Some sn \<and> level_of sn = level_of s1 \<and>
      level_of s1 6 = HIGH \<and> writes s1 = [(6, HIGH)] \<and>
      writes sn = [(6, HIGH), (6, HIGH), (6, HIGH)])"
proof -
  obtain s1 sn where h: "ledController_update 2 board_led2 = Some s1"
      "update_times (Suc 2) 2 board_led2 = Some sn"
      "level_of sn = level_of s1"
      "writes sn = writes s1 @ replicate 2 (pinNos ! nat 2, level_of s1 (pinNos ! nat 2))"
    using update_idempotent [OF wf_board_led2, of 2 2] by auto
  have s1: "s1 = digitalWrite 6 HIGH board_led2"
    using h(1) by (simp add: update_board_led2)
  have "level_of s1 6 = HIGH" "writes s1 = [(6, HIGH)]"
    by (simp_all add: s1 digitalWrite_def board_led2_def board_def startup_def)
  moreover from this h(4) have "writes sn = [(6, HIGH), (6, HIGH), (6, HIGH)]"
    by (simp add: pinNos_def numeral_2_eq_2)
  moreover have "update_times 3 2 board_led2 = Some sn"
    using h(2) by (simp add: numeral_3_eq_3 numeral_2_eq_2)
  ultimately show ?thesis
    using h(1,3) wf_board_led2 by simp
qed

section \<open>Initialisation: \<open>begin\<close>\<close>

text \<open>
  Claim C9. After \<open>begin()\<close> all five LED lines (4, 5, 6, 7, 22) are outputs at level
  \<open>LOW\<close>. \<open>begin()\<close> does not touch the flags, so called while they have their static
  initialiser (all false) it leaves them all false, and an \<open>update(i)\<close> that follows at once
  changes no level, for any \<open>i\<close> in \<open>[0,4]\<close>.
\<close>

theorem begin_all_low:
  assumes "wf_mcu s" and "toggleFlag s = toggleFlag_init"
  shows "(\<forall>p \<in> set pinNos. mode_of (ledController_begin s) p = OUTPUT \<and>
                            level_of (ledController_begin s) p = LOW) \<and>
         set pinNos = {4, 5, 6, 7, 22} \<and>
         toggleFlag (ledController_begin s) = [False, False, False, False, False] \<and>
         (\<forall>i. 0 \<le> i \<and> i < 5 \<longrightarrow>
            (\<exists>s'. ledController_update i (ledController_begin s) = Some s' \<and>
                  level_of s' = level_of (ledController_begin s)))"
proof -
  let ?b = "ledController_begin s"
  have flags: "toggleFlag ?b = toggleFlag_init"
    using assms(2) by (simp add: begin_toggleFlag)
  have upd: "\<exists>s'. ledController_update i ?b = Some s' \<and> level_of s' = level_of ?b"
    if "0 \<le> i" "i < 5" for i
  proof -
    have "level_of ?b (pinNos ! nat i) = LOW"
      using that by (simp add: begin_pins_low nth_pinNos_mem)
    then have "(level_of ?b)(pinNos ! nat i := LOW) = level_of ?b"
      by (simp add: fun_upd_idem)
    then show ?thesis
      using that toggleFlag_init_nth [OF that]
      by (simp add: update_Some flags digitalWrite_def)
  qed
  have pins: "set pinNos = {4, 5, 6, 7, 22}"
    by (simp add: pinNos_def)
  show ?thesis
    using upd flags pins by (simp add: begin_pins_low begin_pins_output toggleFlag_init_def)
qed

theorem begin_all_low_witness:
  "wf_mcu board \<and> toggleFlag board = toggleFlag_init \<and>
   mode_of board 22 = INPUT \<and> mode_of (ledController_begin board) 22 = OUTPUT \<and>
   level_of (ledController_begin board) 22 = LOW \<and>
   (\<exists>s'. ledController_update 4 (ledController_begin board) = Some s' \<and>
         level_of s' = level_of (ledController_begin board))"
proof -
  have m: "mode_of board 22 = INPUT"
    by (simp add: board_def startup_def)
  have "(22::int) \<in> set pinNos"
    by (simp add: pinNos_def)
  then show ?thesis
    using begin_all_low [OF wf_board toggleFlag_board] wf_board toggleFlag_board m
    by simp
qed

section \<open>The connection-health monitor: \<open>adsBaglanmadiLedBildir\<close>\<close>

text \<open>
  Claim C3. Whenever the counter of slot 4 is at the threshold 4, a call of
  \<open>adsBaglanmadiLedBildir\<close> drives line 22 (the status indicator) \<open>LOW\<close> and resets that
  counter to 0.
\<close>

theorem threshold_clears_indicator:
  assumes "wf_mcu s" and "counter (leds s ! 4) = 4"
  shows "level_of (ledController_adsBaglanmadiLedBildir s) 22 = LOW \<and>
         counter (leds (ledController_adsBaglanmadiLedBildir s) ! 4) = 0"
  using assms
  by (simp add: ledController_adsBaglanmadiLedBildir_def digitalWrite_def wf_mcu_def)

theorem threshold_clears_indicator_witness:
  "wf_mcu board_faulty \<and> counter (leds board_faulty ! 4) = 4 \<and>
   level_of board_faulty 22 = HIGH \<and>
   level_of (ledController_adsBaglanmadiLedBildir board_faulty) 22 = LOW \<and>
   counter (leds (ledController_adsBaglanmadiLedBildir board_faulty) ! 4) = 0"
  using threshold_clears_indicator [OF wf_board_faulty counter_board_faulty]
    wf_board_faulty counter_board_faulty
  by (simp add: board_faulty_def)

text \<open>
  Claim C10. For every value of the monitored counter other than exactly 4, values above
  4 included, a call of \<open>adsBaglanmadiLedBildir\<close> changes nothing: no line is written and
  the counter keeps its value.
\<close>

theorem off_threshold_is_noop:
  assumes "counter (leds s ! 4) \<noteq> 4"
  shows "ledController_adsBaglanmadiLedBildir s = s"
  using assms by (simp add: ledController_adsBaglanmadiLedBildir_def)

theorem off_threshold_is_noop_witness:
  "counter (leds board_overshoot ! 4) = 5 \<and> 4 < counter (leds board_overshoot ! 4) \<and>
   ledController_adsBaglanmadiLedBildir board_overshoot = board_overshoot \<and>
   writes (ledController_adsBaglanmadiLedBildir board_overshoot) = writes board_overshoot"
  using off_threshold_is_noop [of board_overshoot] counter_board_overshoot
  by simp

text \<open>In a history during which the counter is never at 4, nothing is written.\<close>

lemma quiet_history:
  "counter_not_at_4 es s \<Longrightarrow> writes (monitor_run es s) = writes s"
proof (induction es arbitrary: s)
  case Nil
  show ?case by simp
next
  case (Cons e es)
  then have c: "counter (leds s ! 4) \<noteq> 4"
    and rest: "counter_not_at_4 es (monitor_step e s)"
    by simp_all
  have "writes (monitor_step e s) = writes s"
    using c by (cases e) (simp_all add: ledController_adsBaglanmadiLedBildir_def)
  then show ?case
    using Cons.IH [OF rest] by simp
qed

lemma example_history_quiet:
  "counter_not_at_4 example_history (ledController_adsBaglanmadiLedBildir board_faulty)"
  by (simp add: example_history_def ledController_adsBaglanmadiLedBildir_def digitalWrite_def
      board_faulty_def board_def startup_def nth_append)

text \<open>
  Claim C4. When the counter is at 4, the call of \<open>adsBaglanmadiLedBildir\<close> writes the
  indicator exactly once (line 22, \<open>LOW\<close>) and resets the counter to 0; in whatever
  follows, calls and counter changes alike, nothing more is written for as long as the
  counter has not come back to 4.
\<close>

theorem indicator_triggered_once:
  assumes "wf_mcu s" and "counter (leds s ! 4) = 4"
    and "counter_not_at_4 es (ledController_adsBaglanmadiLedBildir s)"
  shows "writes (ledController_adsBaglanmadiLedBildir s) = writes s @ [(22, LOW)] \<and>
         counter (leds (ledController_adsBaglanmadiLedBildir s) ! 4) = 0 \<and>
         writes (monitor_run es (ledController_adsBaglanmadiLedBildir s)) =
           writes (ledController_adsBaglanmadiLedBildir s)"
  using assms quiet_history [OF assms(3)]
  by (simp add: ledController_adsBaglanmadiLedBildir_def digitalWrite_def wf_mcu_def)

theorem indicator_triggered_once_witness:
  "wf_mcu board_faulty \<and> counter (leds board_faulty ! 4) = 4 \<and>
   counter_not_at_4 example_history (ledController_adsBaglanmadiLedBildir board_faulty) \<and>
   writes (monitor_run (Call_adsBaglanmadiLedBildir # example_history) board_faulty) =
     [(22, LOW)]"
proof -
  have "writes board_faulty = []"
    by (simp add: board_faulty_def board_def startup_def)
  then have "writes (monitor_run example_history
                      (ledController_adsBaglanmadiLedBildir board_faulty)) = [(22, LOW)]"
    using indicator_triggered_once
            [OF wf_board_faulty counter_board_faulty example_history_quiet]
    by simp
  then show ?thesis
    using wf_board_faulty counter_board_faulty example_history_quiet by simp
qed

section \<open>Startup of the channels\<close>



section \<open>The sequencer invariant holds in every reachable state\<close>

lemma seq_inv_startup: "seq_inv (startup raw_ads new_ads dongu ls modes levels)"
  by (simp add: seq_inv_def startup_def sistem_ctor_def sistem_static_storage_def
      ChannelState_of_value_def toggleFlag_init_def nth_Cons')

text \<open>An operation that touches neither \<open>mysistem\<close> nor the flags keeps the invariant.\<close>

lemma seq_inv_cong:
  "seq_inv s \<Longrightarrow> mysistem s' = mysistem s \<Longrightarrow> toggleFlag s' = toggleFlag s \<Longrightarrow> seq_inv s'"
  by (simp add: seq_inv_def)

lemma seq_inv_pos: "seq_inv s \<Longrightarrow> nat (process_pos (mysistem s)) < 4"
  unfolding seq_inv_def by linarith

lemma next_pos_facts:
  assumes "k < 4"
  shows "nat ((int k + 1) mod 4) < 4" and "nat ((int k + 1) mod 4) \<noteq> k"
    and "0 \<le> (int k + 1) mod 4" and "(int k + 1) mod 4 < 4"
proof -
  from assms have "k \<in> {0, 1, 2, 3}" by auto
  then show "nat ((int k + 1) mod 4) < 4" and "nat ((int k + 1) mod 4) \<noteq> k"
    by auto
  show "0 \<le> (int k + 1) mod 4" and "(int k + 1) mod 4 < 4" by simp_all
qed

lemma seq_inv_enter:
  assumes "seq_inv s" and "k = nat (process_pos (mysistem s))"
  shows "seq_inv (set_ledFlag k True (set_channel k LED_ON s))"
  using assms
  by (auto simp: seq_inv_def set_ledFlag_def set_channel_def nth_list_update split: if_splits)

lemma seq_inv_leave:
  assumes "seq_inv s" and "k = nat (process_pos (mysistem s))" and "c \<noteq> LED_ON"
  shows "seq_inv (set_ledFlag k False (set_channel k c s))"
  using assms
  by (auto simp: seq_inv_def set_ledFlag_def set_channel_def nth_list_update split: if_splits)

lemma seq_inv_advance:
  assumes "seq_inv s" and "k = nat (process_pos (mysistem s))" and "c \<noteq> LED_ON"
    and "channelState (mysistem s) ! k \<noteq> LED_ON"
  shows "seq_inv (set_channel k c s)"
  using assms
  by (auto simp: seq_inv_def set_channel_def nth_list_update split: if_splits)

lemma seq_inv_acknowledge:
  assumes "seq_inv s" and "k = nat (process_pos (mysistem s))"
    and "channelState (mysistem s) ! k = CYCLE_COMPLETE"
  shows "seq_inv (acknowledge skip_idle k s)"
proof -
  have k: "k < 4" using assms(1,2) by (simp add: seq_inv_pos)
  note np = next_pos_facts [OF k]
  show ?thesis
    using assms np
    by (auto simp: seq_inv_def acknowledge_def Let_def set_ledFlag_def set_channel_def
        nth_list_update split: if_splits)
qed

lemma seq_inv_tick: "seq_inv s \<Longrightarrow> seq_inv (tick skip_idle phase_done s)"
  unfolding tick_def Let_def
  by (auto split: ChannelState.split
      intro: seq_inv_enter seq_inv_leave seq_inv_advance seq_inv_acknowledge)

lemma seq_inv_apply:
  "seq_inv s \<Longrightarrow> apply_operation skip_idle x s = Some s' \<Longrightarrow> seq_inv s'"
proof (cases x)
  case Op_ctor
  assume "seq_inv s" "apply_operation skip_idle x s = Some s'"
  with Op_ctor show ?thesis
    by (auto simp: ledController_ctor_def elim: seq_inv_cong)
next
  case Op_begin
  assume "seq_inv s" "apply_operation skip_idle x s = Some s'"
  with Op_begin show ?thesis
    by (auto simp: begin_unfolded digitalWrite_def pinMode_def elim: seq_inv_cong)
next
  case (Op_update i)
  assume "seq_inv s" "apply_operation skip_idle x s = Some s'"
  with Op_update show ?thesis
    by (auto simp: ledController_update_def digitalWrite_def split: if_splits
        elim: seq_inv_cong)
next
  case Op_adsBaglanmadiLedBildir
  assume "seq_inv s" "apply_operation skip_idle x s = Some s'"
  with Op_adsBaglanmadiLedBildir show ?thesis
    by (auto simp: ledController_adsBaglanmadiLedBildir_def digitalWrite_def Let_def
        split: if_splits elim: seq_inv_cong)
next
  case (Op_tick d)
  assume "seq_inv s" "apply_operation skip_idle x s = Some s'"
  with Op_tick show ?thesis
    by (auto intro: seq_inv_tick)
qed

lemma seq_inv_run:
  "seq_inv s \<Longrightarrow> run skip_idle xs s = Some s' \<Longrightarrow> seq_inv s'"
proof (induction xs arbitrary: s)
  case Nil
  then show ?case by simp
next
  case (Cons x xs)
  then show ?case
    by (auto split: option.splits dest: seq_inv_apply)
qed

lemma seq_inv_adc_readers: "seq_inv s \<Longrightarrow> adc_readers s \<le> 1"
proof -
  assume inv: "seq_inv s"
  let ?cs = "channelState (mysistem s)"
  define k where "k = nat (process_pos (mysistem s))"
  from inv have len: "length ?cs = 4" by (simp add: seq_inv_def)
  then obtain a b c d where cs: "?cs = [a, b, c, d]"
    by (auto simp: length_Suc_conv numeral_eq_Suc)
  have "k < 4" unfolding k_def using inv by (rule seq_inv_pos)
  then have pos: "k = 0 \<or> k = 1 \<or> k = 2 \<or> k = 3" by auto
  have idle: "j < 4 \<Longrightarrow> j \<noteq> k \<Longrightarrow> ?cs ! j = CHANNEL_IDLE" for j
    unfolding k_def using inv by (simp add: seq_inv_def)
  have ia: "k \<noteq> 0 \<Longrightarrow> a = CHANNEL_IDLE"
    using idle [of 0] by (simp add: cs)
  have ib: "k \<noteq> 1 \<Longrightarrow> b = CHANNEL_IDLE"
    using idle [of 1] by (simp add: cs)
  have ic: "k \<noteq> 2 \<Longrightarrow> c = CHANNEL_IDLE"
    using idle [of 2] by (simp add: cs)
  have id: "k \<noteq> 3 \<Longrightarrow> d = CHANNEL_IDLE"
    using idle [of 3] by (simp add: cs)
  show ?thesis
    unfolding adc_readers_def cs
    using pos ia ib ic id by auto
qed

lemma example_run_adc_result:
  "\<exists>s. run False example_run_adc board = Some s \<and>
       channelState (mysistem s) =
         [ADC_READING_PHASE, CHANNEL_IDLE, CHANNEL_IDLE, CHANNEL_IDLE]"
  by (simp add: example_run_adc_def board_def startup_def sistem_ctor_def
      sistem_static_storage_def ChannelState_of_value_def toggleFlag_init_def
      begin_unfolded digitalWrite_def pinMode_def tick_def set_channel_def set_ledFlag_def
      ledController_update_def numeral_eq_Suc)

lemma example_run_led_result:
  "\<exists>s. run True example_run_led board = Some s \<and>
       channelState (mysistem s) = [LED_ON, CHANNEL_IDLE, CHANNEL_IDLE, CHANNEL_IDLE] \<and>
       toggleFlag s = [True, False, False, False, False] \<and> level_of s 4 = HIGH"
  by (simp add: example_run_led_def board_def startup_def sistem_ctor_def
      sistem_static_storage_def ChannelState_of_value_def toggleFlag_init_def
      begin_unfolded digitalWrite_def pinMode_def tick_def set_channel_def set_ledFlag_def
      ledController_update_def pinNos_def numeral_eq_Suc)

text \<open>
  Claim C1. In every state the system reaches from startup, by any sequence of its
  operations, at most one of the four channels is in \<open>ADC_READING_PHASE\<close>, and every
  operation applied in such a state leads to a state where this holds again.
\<close>

theorem adc_mutual_exclusion:
  assumes "run skip_idle xs (startup raw_ads new_ads dongu ls modes levels) = Some s"
  shows "adc_readers s \<le> 1 \<and>
         (\<forall>x s'. apply_operation skip_idle x s = Some s' \<longrightarrow> adc_readers s' \<le> 1)"
proof -
  have inv: "seq_inv s"
    using seq_inv_run [OF seq_inv_startup assms] .
  then show ?thesis
    by (blast dest: seq_inv_apply seq_inv_adc_readers)
qed

theorem adc_mutual_exclusion_witness:
  "\<exists>s. run False example_run_adc board = Some s \<and>
       channelState (mysistem s) ! 0 = ADC_READING_PHASE \<and>
       adc_readers s \<le> 1 \<and> adc_readers (tick False True s) \<le> 1"
proof -
  obtain s where s: "run False example_run_adc board = Some s"
      "channelState (mysistem s) = [ADC_READING_PHASE, CHANNEL_IDLE, CHANNEL_IDLE, CHANNEL_IDLE]"
    using example_run_adc_result by blast
  have r: "run False example_run_adc
             (startup () () [False, False, False, False] (replicate 5 \<lparr> counter = 0 \<rparr>)
                (\<lambda>_. INPUT) (\<lambda>_. LOW)) = Some s"
    using s(1) by (simp add: board_def)
  have t: "apply_operation False (Op_tick True) s = Some (tick False True s)"
    by simp
  have "adc_readers s \<le> 1" "adc_readers (tick False True s) \<le> 1"
    using adc_mutual_exclusion [OF r] t by blast+
  then show ?thesis
    using s by auto
qed

text \<open>
  Claim C5. For every channel \<open>i\<close> in \<open>[0,3]\<close> and every state the system reaches from
  startup, \<open>toggleFlag[i]\<close> is true if and only if \<open>channelState[i]\<close> is \<open>LED_ON\<close>; so it
  is false while the channel is in \<open>DELAY_COUNTING\<close>, \<open>ADC_READING_PHASE\<close>,
  \<open>CYCLE_COMPLETE\<close> or \<open>CHANNEL_IDLE\<close>.
\<close>

theorem led_flag_iff_led_on:
  assumes "run skip_idle xs (startup raw_ads new_ads dongu ls modes levels) = Some s"
    and "i < 4"
  shows "(toggleFlag s ! i \<longleftrightarrow> channelState (mysistem s) ! i = LED_ON) \<and>
         (channelState (mysistem s) ! i \<in>
            {DELAY_COUNTING, ADC_READING_PHASE, CYCLE_COMPLETE, CHANNEL_IDLE}
          \<longrightarrow> \<not> toggleFlag s ! i)"
proof -
  have inv: "seq_inv s"
    using seq_inv_run [OF seq_inv_startup assms(1)] .
  then show ?thesis
    using assms(2) by (auto simp: seq_inv_def)
qed

theorem led_flag_iff_led_on_witness:
  "\<exists>s. run True example_run_led board = Some s \<and> (0::nat) < 4 \<and>
       channelState (mysistem s) ! 0 = LED_ON \<and> toggleFlag s ! 0 \<and>
       channelState (mysistem s) ! 1 = CHANNEL_IDLE \<and> \<not> toggleFlag s ! 1"
proof -
  obtain s where s: "run True example_run_led board = Some s"
      "channelState (mysistem s) = [LED_ON, CHANNEL_IDLE, CHANNEL_IDLE, CHANNEL_IDLE]"
    using example_run_led_result by blast
  have r: "run True example_run_led
             (startup () () [False, False, False, False] (replicate 5 \<lparr> counter = 0 \<rparr>)
                (\<lambda>_. INPUT) (\<lambda>_. LOW)) = Some s"
    using s(1) by (simp add: board_def)
  have "toggleFlag s ! 0" "\<not> toggleFlag s ! 1"
    using led_flag_iff_led_on [OF r, of 0] led_flag_iff_led_on [OF r, of 1] s(2) by simp_all
  then show ?thesis
    using s by auto
qed

end
